theory Spec2Isabelle
  imports Main "HOL-Library.Sublist"
begin

section \<open>Byte strings and the Go library functions the programs call\<close>

text \<open>
  A Go string is a sequence of bytes; it is modelled as \<^typ>\<open>string\<close>, a list of 8-bit
  characters. The library functions below are written after the Go standard library (Unix
  path rules). \<open>strings.ToLower\<close> is modelled on bytes: it lowers the ASCII letters and
  leaves every other byte as it is, which is what Go does on ASCII input.
\<close>

definition isUpper :: "char \<Rightarrow> bool" where
  "isUpper c = (65 \<le> (of_char c :: nat) \<and> (of_char c :: nat) \<le> 90)"

definition isLowerOrDigit :: "char \<Rightarrow> bool" where
  "isLowerOrDigit c =
     ((97 \<le> (of_char c :: nat) \<and> (of_char c :: nat) \<le> 122) \<or>
      (48 \<le> (of_char c :: nat) \<and> (of_char c :: nat) \<le> 57))"

definition toLowerByte :: "char \<Rightarrow> char" where
  "toLowerByte c = (if isUpper c then char_of ((of_char c :: nat) + 32) else c)"

definition strings_ToLower :: "string \<Rightarrow> string" where
  "strings_ToLower s = map toLowerByte s"

definition strings_HasPrefix :: "string \<Rightarrow> string \<Rightarrow> bool" where
  "strings_HasPrefix s p = prefix p s"

fun strings_Contains :: "string \<Rightarrow> string \<Rightarrow> bool" where
  "strings_Contains [] sub = (sub = [])"
| "strings_Contains (c # cs) sub = (prefix sub (c # cs) \<or> strings_Contains cs sub)"

definition strings_TrimPrefix :: "string \<Rightarrow> string \<Rightarrow> string" where
  "strings_TrimPrefix s p = (if prefix p s then drop (length p) s else s)"

definition strings_CutPrefix :: "string \<Rightarrow> string \<Rightarrow> string \<times> bool" where
  "strings_CutPrefix s p = (if prefix p s then (drop (length p) s, True) else (s, False))"

text \<open>
  \<open>strings.ReplaceAll s old new\<close> for a non-empty \<open>old\<close>: the non-overlapping
  occurrences of \<open>old\<close> are replaced from left to right. (With an empty \<open>old\<close> Go inserts
  \<open>new\<close> around every rune; no caller here passes one, and the model returns \<open>s\<close>.)
\<close>

function strings_ReplaceAll :: "string \<Rightarrow> string \<Rightarrow> string \<Rightarrow> string" where
  "strings_ReplaceAll [] old new = []"
| "strings_ReplaceAll (c # cs) old new =
     (if old \<noteq> [] \<and> prefix old (c # cs)
      then new @ strings_ReplaceAll (drop (length old) (c # cs)) old new
      else c # strings_ReplaceAll cs old new)"
  by pat_completeness auto
termination
  by (relation "measure (\<lambda>(s, old, new). length s)") (auto simp: neq_Nil_conv)

text \<open>
  \<open>strings.Split s sep\<close> for a non-empty \<open>sep\<close>: \<open>s\<close> is cut at every non-overlapping
  occurrence of \<open>sep\<close>, found from left to right; the result is never empty.
  \<open>strings_Split_from\<close> carries the bytes of the current piece, newest first.
\<close>

function strings_Split_from :: "string \<Rightarrow> string \<Rightarrow> string \<Rightarrow> string list" where
  "strings_Split_from acc [] sep = [rev acc]"
| "strings_Split_from acc (c # cs) sep =
     (if sep \<noteq> [] \<and> prefix sep (c # cs)
      then rev acc # strings_Split_from [] (drop (length sep) (c # cs)) sep
      else strings_Split_from (c # acc) cs sep)"
  by pat_completeness auto
termination
  by (relation "measure (\<lambda>(acc, s, sep). length s)") (auto simp: neq_Nil_conv)

definition strings_Split :: "string \<Rightarrow> string \<Rightarrow> string list" where
  "strings_Split s sep = strings_Split_from [] s sep"

definition strings_Join :: "string list \<Rightarrow> string \<Rightarrow> string" where
  "strings_Join elems sep =
     (case elems of [] \<Rightarrow> [] | e # es \<Rightarrow> e @ concat (map (\<lambda>x. sep @ x) es))"

text \<open>
  The two regular expressions of the sanitizer, \<open>[^a-z0-9]+\<close> and \<open>_+\<close>, both match the
  maximal runs of one class of bytes. \<open>regexp_ReplaceAllString cls s repl\<close> replaces every
  maximal run of bytes of the class \<open>cls\<close> by \<open>repl\<close>. (A byte of a multi-byte rune is
  never in \<open>a-z0-9\<close> nor \<open>_\<close>, so runs of runes and runs of bytes are the same runs.)
\<close>

function regexp_ReplaceAllString :: "(char \<Rightarrow> bool) \<Rightarrow> string \<Rightarrow> string \<Rightarrow> string" where
  "regexp_ReplaceAllString cls [] repl = []"
| "regexp_ReplaceAllString cls (c # cs) repl =
     (if cls c then repl @ regexp_ReplaceAllString cls (dropWhile cls cs) repl
      else c # regexp_ReplaceAllString cls cs repl)"
  by pat_completeness auto
termination
  by (relation "measure (\<lambda>(cls, s, repl). length s)")
     (auto simp: less_Suc_eq_le length_dropWhile_le)

definition nonAlphanumericRegex :: "char \<Rightarrow> bool" where
  "nonAlphanumericRegex c = (\<not> isLowerOrDigit c)"

definition collapseUnderscoresRegex :: "char \<Rightarrow> bool" where
  "collapseUnderscoresRegex c = (c = CHR ''_'')"

text \<open>\<open>path.Base\<close>: the last element of a slash-separated path.\<close>

definition path_Base :: "string \<Rightarrow> string" where
  "path_Base p =
     (if p = [] then ''.''
      else let stripped = rev (dropWhile (\<lambda>c. c = CHR ''/'') (rev p));
               elem = rev (takeWhile (\<lambda>c. c \<noteq> CHR ''/'') (rev stripped))
           in if elem = [] then ''/'' else elem)"

text \<open>
  \<open>filepath.Ext\<close>: the suffix that starts at the last dot of the last path element, or the
  empty string. \<open>filepath_Ext_scan\<close> walks the path from its end, as the library's loop.
\<close>

fun filepath_Ext_scan :: "string \<Rightarrow> string \<Rightarrow> string" where
  "filepath_Ext_scan [] seen = []"
| "filepath_Ext_scan (c # front) seen =
     (if c = CHR ''/'' then []
      else if c = CHR ''.'' then c # seen
      else filepath_Ext_scan front (c # seen))"

definition filepath_Ext :: "string \<Rightarrow> string" where
  "filepath_Ext p = filepath_Ext_scan (rev p) []"

text \<open>
  \<open>filepath.Clean\<close> and \<open>filepath.Join\<close> of two elements. Clean drops empty and \<open>.\<close>
  elements, resolves \<open>..\<close> against the element before it, and returns \<open>.\<close> for an empty
  result.
\<close>

fun filepath_Clean_elems :: "bool \<Rightarrow> string list \<Rightarrow> string list \<Rightarrow> string list" where
  "filepath_Clean_elems rooted out [] = rev out"
| "filepath_Clean_elems rooted out (e # es) =
     (if e = [] \<or> e = ''.'' then filepath_Clean_elems rooted out es
      else if e = ''..'' then
        (case out of
           [] \<Rightarrow> filepath_Clean_elems rooted (if rooted then [] else [e]) es
         | prev # below \<Rightarrow>
             if prev = ''..'' then filepath_Clean_elems rooted (e # out) es
             else filepath_Clean_elems rooted below es)
      else filepath_Clean_elems rooted (e # out) es)"

definition filepath_Clean :: "string \<Rightarrow> string" where
  "filepath_Clean p =
     (if p = [] then ''.''
      else let rooted = (hd p = CHR ''/'');
               body = strings_Join (filepath_Clean_elems rooted [] (strings_Split p ''/'')) ''/''
           in if rooted then CHR ''/'' # body
              else if body = [] then ''.'' else body)"

definition filepath_Join :: "string \<Rightarrow> string \<Rightarrow> string" where
  "filepath_Join a b =
     (if a \<noteq> [] then filepath_Clean (a @ ''/'' @ b)
      else if b \<noteq> [] then filepath_Clean b
      else [])"

section \<open>The Filename Sanitizer of main.go\<close>

definition getFileExtension :: "string \<Rightarrow> string" where
  "getFileExtension p = filepath_Ext p"

definition getFileNameOnly :: "string \<Rightarrow> string" where
  "getFileNameOnly content = path_Base content"

definition removeSubstring :: "string \<Rightarrow> string \<Rightarrow> string" where
  "removeSubstring input toRemove = strings_ReplaceAll input toRemove []"

definition urlToFilename :: "string \<Rightarrow> string" where
  "urlToFilename rawURL =
     (let lowercaseURL = strings_ToLower rawURL;
          ext = getFileExtension lowercaseURL;
          baseFilename = getFileNameOnly lowercaseURL;
          safe1 = regexp_ReplaceAllString nonAlphanumericRegex baseFilename ''_'';
          safe2 = regexp_ReplaceAllString collapseUnderscoresRegex safe1 ''_'';
          safe3 = (case strings_CutPrefix safe2 ''_'' of
                     (trimmed, found) \<Rightarrow> if found then trimmed else safe2);
          invalid_ext = ''_'' @ strings_TrimPrefix ext ''.'';
          invalidSubstrings = [invalid_ext];
          safe4 = foldl removeSubstring safe3 invalidSubstrings
      in safe4 @ ext)"

section \<open>The world: file system, network and clock\<close>

text \<open>
  The file system maps a path to a regular file with its bytes or to a directory. The world
  also records every HTTP GET the program performs, in order, and how many cooldown sleeps
  it took. Console logging is not modelled.
\<close>

datatype node = File string | Dir

record world =
  files :: "string \<Rightarrow> node option"
  requests :: "string list"
  sleeps :: nat

text \<open>
  What the program cannot decide is the environment's: the reply to the \<open>n\<close>-th GET of the
  run, whether a path can be opened for writing (\<open>open_error\<close> gives the error text when it
  cannot), and whether a write goes through (\<open>write_error p d = Some (n, e)\<close>: only the first
  \<open>n\<close> bytes of \<open>d\<close> reach the file, then the error \<open>e\<close>).
\<close>

datatype read_result = ReadOk string | ReadFailed string

datatype response =
  Response (StatusCode: nat) (Status: string) (ContentType: string) (Body: read_result)

datatype get_result = GetFailed string | GetOk response

record env =
  http_Get :: "nat \<Rightarrow> string \<Rightarrow> get_result"
  open_error :: "string \<Rightarrow> string option"
  write_error :: "string \<Rightarrow> string \<Rightarrow> (nat \<times> string) option"

definition doesFileExist :: "world \<Rightarrow> string \<Rightarrow> bool" where
  "doesFileExist w filePath = (case files w filePath of Some (File c) \<Rightarrow> True | _ \<Rightarrow> False)"

definition file_content :: "world \<Rightarrow> string \<Rightarrow> string" where
  "file_content w p = (case files w p of Some (File c) \<Rightarrow> c | _ \<Rightarrow> [])"

text \<open>\<open>os.Create\<close>: the file is created, or truncated when it exists.\<close>

definition os_Create :: "env \<Rightarrow> string \<Rightarrow> world \<Rightarrow> string + world" where
  "os_Create e p w =
     (case open_error e p of
        Some err \<Rightarrow> Inl err
      | None \<Rightarrow>
          if files w p = Some Dir then Inl (''open '' @ p @ '': is a directory'')
          else Inr (w\<lparr>files := (files w)(p \<mapsto> File [])\<rparr>))"

text \<open>\<open>os.OpenFile\<close> with \<open>O_APPEND|O_CREATE|O_WRONLY\<close>: an existing file keeps its bytes.\<close>

definition os_OpenFile_append :: "env \<Rightarrow> string \<Rightarrow> world \<Rightarrow> string + world" where
  "os_OpenFile_append e p w =
     (case open_error e p of
        Some err \<Rightarrow> Inl err
      | None \<Rightarrow>
          if files w p = Some Dir then Inl (''open '' @ p @ '': is a directory'')
          else Inr (w\<lparr>files := (files w)(p \<mapsto> File (file_content w p))\<rparr>))"

text \<open>Writing to an open file adds the bytes at its end (\<open>WriteTo\<close>, \<open>WriteString\<close>).\<close>

definition file_Write :: "env \<Rightarrow> string \<Rightarrow> string \<Rightarrow> world \<Rightarrow> string option \<times> world" where
  "file_Write e p d w =
     (case write_error e p d of
        Some (n, err) \<Rightarrow> (Some err, w\<lparr>files := (files w)(p \<mapsto> File (file_content w p @ take n d))\<rparr>)
      | None \<Rightarrow> (None, w\<lparr>files := (files w)(p \<mapsto> File (file_content w p @ d))\<rparr>))"

definition appendLineToFile :: "env \<Rightarrow> string \<Rightarrow> string \<Rightarrow> world \<Rightarrow> world" where
  "appendLineToFile e filePath content w =
     (case os_OpenFile_append e filePath w of
        Inl err \<Rightarrow> w
      | Inr w1 \<Rightarrow> snd (file_Write e filePath (content @ ''\<newline>'') w1))"

text \<open>
  \<open>readAFileAsString\<close> of main.go returns the empty string when the read fails; in this
  file system a read fails only where there is no regular file.
\<close>

definition readAFileAsString :: "world \<Rightarrow> string \<Rightarrow> string" where
  "readAFileAsString w filePath = file_content w filePath"

text \<open>The separator of a Ledger line: a space, U+2192 in UTF-8, a space.\<close>

definition arrow :: string where
  "arrow = [CHR '' '', CHR 0xE2, CHR 0x86, CHR 0x92, CHR '' '']"

section \<open>The Item Fetcher of main.go\<close>

text \<open>
  An error of the fetcher is the branch that returned it; \<open>Error\<close> is its message, as
  \<open>fmt.Errorf\<close> formats it. \<open>FileExistsError\<close> is returned by part_000 only.
\<close>

datatype download_error =
    GetError string string
  | StatusError string string
  | ContentTypeError string string
  | ReadDataError string string
  | EmptyBodyError string
  | CreateError string string
  | WriteError string string
  | FileExistsError string string

fun Error :: "download_error \<Rightarrow> string" where
  "Error (GetError finalURL err) = ''failed to download '' @ finalURL @ '': '' @ err"
| "Error (StatusError finalURL status) = ''download failed for '' @ finalURL @ '': '' @ status"
| "Error (ContentTypeError finalURL contentType) =
     ''invalid content type for '' @ finalURL @ '': '' @ contentType @ '' (expected application/pdf)''"
| "Error (ReadDataError finalURL err) = ''failed to read PDF data from '' @ finalURL @ '': '' @ err"
| "Error (EmptyBodyError finalURL) = ''downloaded 0 bytes for '' @ finalURL @ '', not creating file''"
| "Error (CreateError filePath err) = ''failed to create file '' @ filePath @ '': '' @ err"
| "Error (WriteError filePath err) = ''failed to write PDF to file '' @ filePath @ '': '' @ err"
| "Error (FileExistsError filePath finalURL) =
     ''file already exists, skipping: '' @ filePath @ '' (URL: '' @ finalURL @ '')''"

text \<open>
  \<open>downloadPDFFile\<close> returns the error (or \<open>None\<close> for \<open>nil\<close>), the in-memory set, which
  the source updates in place, and the world.
\<close>

definition downloadPDFFile ::
  "env \<Rightarrow> string \<Rightarrow> string \<Rightarrow> string \<Rightarrow> string \<Rightarrow> string set \<Rightarrow> world
     \<Rightarrow> download_error option \<times> string set \<times> world" where
  "downloadPDFFile e finalURL outputDirectory filename logFilePath alreadyDownloaded w =
     (let filePath = filepath_Join outputDirectory (urlToFilename filename)
      in if finalURL \<in> alreadyDownloaded then (None, alreadyDownloaded, w)
         else if doesFileExist w filePath then
           (None, insert finalURL alreadyDownloaded,
            appendLineToFile e logFilePath (finalURL @ arrow @ filePath) w)
         else
           (let w1 = w\<lparr>requests := requests w @ [finalURL]\<rparr>
            in case http_Get e (length (requests w)) finalURL of
                 GetFailed err \<Rightarrow> (Some (GetError finalURL err), alreadyDownloaded, w1)
               | GetOk resp \<Rightarrow>
                   if StatusCode resp \<noteq> 200 then
                     (Some (StatusError finalURL (Status resp)), alreadyDownloaded, w1)
                   else if \<not> strings_Contains (ContentType resp) ''application/pdf'' then
                     (Some (ContentTypeError finalURL (ContentType resp)), alreadyDownloaded, w1)
                   else
                     (case Body resp of
                        ReadFailed err \<Rightarrow> (Some (ReadDataError finalURL err), alreadyDownloaded, w1)
                      | ReadOk buffer \<Rightarrow>
                          if length buffer = 0 then
                            (Some (EmptyBodyError finalURL), alreadyDownloaded, w1)
                          else
                            (case os_Create e filePath w1 of
                               Inl err \<Rightarrow> (Some (CreateError filePath err), alreadyDownloaded, w1)
                             | Inr w2 \<Rightarrow>
                                 (case file_Write e filePath buffer w2 of
                                    (Some err, w3) \<Rightarrow>
                                      (Some (WriteError filePath err), alreadyDownloaded, w3)
                                  | (None, w3) \<Rightarrow>
                                      (None, insert finalURL alreadyDownloaded,
                                       appendLineToFile e logFilePath
                                         (finalURL @ arrow @ filePath) w3))))))"

section \<open>The Item Fetcher of part_000\<close>

definition fileExists :: "world \<Rightarrow> string \<Rightarrow> bool" where
  "fileExists w filename = (case files w filename of Some (File c) \<Rightarrow> True | _ \<Rightarrow> False)"

text \<open>
  \<open>readAFileAsString\<close> of part_000 ends the process when the read fails. Every call is
  guarded by \<open>fileExists\<close>, and in this file system the read of a regular file succeeds.
\<close>

definition readAFileAsString_part000 :: "world \<Rightarrow> string \<Rightarrow> string" where
  "readAFileAsString_part000 w path = file_content w path"

definition appendAndWriteToFile :: "env \<Rightarrow> string \<Rightarrow> string \<Rightarrow> world \<Rightarrow> world" where
  "appendAndWriteToFile e path content w =
     (case os_OpenFile_append e path w of
        Inl err \<Rightarrow> w
      | Inr w1 \<Rightarrow> snd (file_Write e path (content @ ''\<newline>'') w1))"

text \<open>
  \<open>generateHash\<close>: the SHA-256 digest of the input, in lower-case hexadecimal. The digest
  function \<open>sha256_Sum256\<close> is a parameter (it returns the digest's bytes).
\<close>

definition hexdigit :: "nat \<Rightarrow> char" where
  "hexdigit n = ''0123456789abcdef'' ! n"

definition hex_EncodeToString :: "string \<Rightarrow> string" where
  "hex_EncodeToString bs =
     concat (map (\<lambda>b. [hexdigit ((of_char b :: nat) div 16), hexdigit ((of_char b :: nat) mod 16)]) bs)"

definition generateHash :: "(string \<Rightarrow> string) \<Rightarrow> string \<Rightarrow> string" where
  "generateHash sha256_Sum256 input = hex_EncodeToString (sha256_Sum256 input)"

definition urlToFilename_part000 :: "(string \<Rightarrow> string) \<Rightarrow> string \<Rightarrow> string" where
  "urlToFilename_part000 sha256_Sum256 rawURL =
     (let sanitized = generateHash sha256_Sum256 rawURL;
          sanitized2 = (if getFileExtension sanitized \<noteq> ''.pdf''
                        then sanitized @ ''.pdf'' else sanitized)
      in strings_ToLower sanitized2)"

definition downloadPDF ::
  "env \<Rightarrow> (string \<Rightarrow> string) \<Rightarrow> string \<Rightarrow> string \<Rightarrow> string \<Rightarrow> world
     \<Rightarrow> download_error option \<times> world" where
  "downloadPDF e sha256_Sum256 finalURL outputDir downloadURLFile w =
     (let fileRead = (if fileExists w downloadURLFile
                      then readAFileAsString_part000 w downloadURLFile else []);
          rawFilename = urlToFilename_part000 sha256_Sum256 finalURL;
          filename = strings_ToLower rawFilename;
          filePath = filepath_Join outputDir filename
      in if fileExists w filePath then
           (Some (FileExistsError filePath finalURL),
            if \<not> strings_Contains fileRead finalURL
            then appendAndWriteToFile e downloadURLFile (finalURL @ arrow @ filePath) w
            else w)
         else
           (let w1 = w\<lparr>requests := requests w @ [finalURL]\<rparr>
            in case http_Get e (length (requests w)) finalURL of
                 GetFailed err \<Rightarrow> (Some (GetError finalURL err), w1)
               | GetOk resp \<Rightarrow>
                   if StatusCode resp \<noteq> 200 then
                     (Some (StatusError finalURL (Status resp)), w1)
                   else if \<not> strings_Contains (ContentType resp) ''application/pdf'' then
                     (Some (ContentTypeError finalURL (ContentType resp)), w1)
                   else
                     (case Body resp of
                        ReadFailed err \<Rightarrow> (Some (ReadDataError finalURL err), w1)
                      | ReadOk buf \<Rightarrow>
                          if length buf = 0 then (Some (EmptyBodyError finalURL), w1)
                          else
                            (case os_Create e filePath w1 of
                               Inl err \<Rightarrow> (Some (CreateError filePath err), w1)
                             | Inr w2 \<Rightarrow>
                                 (case file_Write e filePath buf w2 of
                                    (Some err, w3) \<Rightarrow> (Some (WriteError filePath err), w3)
                                  | (None, w3) \<Rightarrow>
                                      (None,
                                       if \<not> strings_Contains fileRead finalURL
                                       then appendAndWriteToFile e downloadURLFile
                                              (finalURL @ arrow @ filePath) w3
                                       else w3))))))"

section \<open>The Orchestrator's download loops\<close>

text \<open>
  The items the Extractor of main.go yields. The inner loop of \<open>main\<close> in main.go calls the
  fetcher for each item of a page; after an error whose text contains \<open>429\<close> it sleeps for
  the cooldown (three minutes, counted in \<open>sleeps\<close>) and calls the fetcher once more. The
  source only logs the errors; the model returns the error each item ended with, so that
  theorems can speak about it.
\<close>

record ValidDownloadItem =
  URL :: string
  FileName :: string

definition main_download ::
  "env \<Rightarrow> string \<Rightarrow> string \<Rightarrow> ValidDownloadItem \<Rightarrow> string set \<Rightarrow> world
     \<Rightarrow> download_error option \<times> string set \<times> world" where
  "main_download e outputDirectoryName downloadLogFileName fileDownload alreadyDownloadedURLs w =
     (case downloadPDFFile e (URL fileDownload) outputDirectoryName (FileName fileDownload)
             downloadLogFileName alreadyDownloadedURLs w of
        (None, S1, w1) \<Rightarrow> (None, S1, w1)
      | (Some err, S1, w1) \<Rightarrow>
          (let errorString = Error err
           in if strings_Contains errorString ''429'' then
                downloadPDFFile e (URL fileDownload) outputDirectoryName (FileName fileDownload)
                  downloadLogFileName S1 (w1\<lparr>sleeps := sleeps w1 + 1\<rparr>)
              else (Some err, S1, w1)))"

fun main_downloads ::
  "env \<Rightarrow> string \<Rightarrow> string \<Rightarrow> ValidDownloadItem list \<Rightarrow> string set \<Rightarrow> world
     \<Rightarrow> download_error option list \<times> string set \<times> world" where
  "main_downloads e outputDirectoryName downloadLogFileName [] S w = ([], S, w)"
| "main_downloads e outputDirectoryName downloadLogFileName (fileDownload # rest) S w =
     (case main_download e outputDirectoryName downloadLogFileName fileDownload S w of
        (err, S1, w1) \<Rightarrow>
          (case main_downloads e outputDirectoryName downloadLogFileName rest S1 w1 of
             (errs, S2, w2) \<Rightarrow> (err # errs, S2, w2)))"

text \<open>
  The download loop of \<open>main\<close> in part_000. The range loop runs over the slice as it was when
  the loop started; \<open>appendToSlice\<close> returns a longer slice, which the loop body discards.
\<close>

definition appendToSlice :: "string list \<Rightarrow> string \<Rightarrow> string list" where
  "appendToSlice slice content = slice @ [content]"

definition main_part000_download ::
  "env \<Rightarrow> (string \<Rightarrow> string) \<Rightarrow> string \<Rightarrow> string \<Rightarrow> string list \<Rightarrow> string \<Rightarrow> world
     \<Rightarrow> world" where
  "main_part000_download e sha256_Sum256 outputDir downloadedFilesURLLocation extractedURL url w =
     (let fileRead = (if fileExists w downloadedFilesURLLocation
                      then readAFileAsString_part000 w downloadedFilesURLLocation else [])
      in if \<not> strings_Contains fileRead url then
           (case downloadPDF e sha256_Sum256 url outputDir downloadedFilesURLLocation w of
              (None, w1) \<Rightarrow> w1
            | (Some err, w1) \<Rightarrow>
                (let errorString = Error err
                 in if strings_Contains errorString ''429'' then
                      (let discarded = appendToSlice extractedURL url
                       in w1\<lparr>sleeps := sleeps w1 + 1\<rparr>)
                    else w1))
         else w)"

definition main_part000_downloads ::
  "env \<Rightarrow> (string \<Rightarrow> string) \<Rightarrow> string \<Rightarrow> string \<Rightarrow> string list \<Rightarrow> world \<Rightarrow> world" where
  "main_part000_downloads e sha256_Sum256 outputDir downloadedFilesURLLocation extractedURL w =
     foldl (\<lambda>w1 url. main_part000_download e sha256_Sum256 outputDir
                        downloadedFilesURLLocation extractedURL url w1)
           w extractedURL"


section \<open>The URL Extractor\<close>

text \<open>
  The decoded page of main.go. \<open>json.Unmarshal\<close> and the URL parser are library functions;
  the Extractor takes them as parameters: \<open>json_Unmarshal\<close> returns the decoded page, or
  \<open>None\<close> for malformed JSON, and the parser returns the parsed URL, of which the code
  reads the scheme and the host, or \<open>None\<close> for a parse error.
\<close>

record PDFVariant =
  DownloadURL :: string
  VariantFileName :: string

record ResultContainer =
  Variants :: "PDFVariant list"

record JSONDataRoot =
  Results :: "ResultContainer list"

record url_URL =
  Scheme :: string
  Host :: string

definition isValidDownloadURL :: "(string \<Rightarrow> url_URL option) \<Rightarrow> string \<Rightarrow> bool" where
  "isValidDownloadURL url_Parse rawURL =
     (case url_Parse rawURL of
        None \<Rightarrow> False
      | Some parsedURL \<Rightarrow>
          if Scheme parsedURL = [] \<or> Host parsedURL = [] then False
          else (let scheme = strings_ToLower (Scheme parsedURL)
                in scheme = ''http'' \<or> scheme = ''https''))"

text \<open>
  The two nested range loops of \<open>parseJSONForDownloads\<close> carry the set \<open>seenURLs\<close> and the
  slice \<open>uniqueDownloads\<close>; \<open>parse_variant\<close> is the body of the inner loop.
\<close>

definition parse_variant ::
  "(string \<Rightarrow> url_URL option) \<Rightarrow> string set \<times> ValidDownloadItem list \<Rightarrow> PDFVariant
     \<Rightarrow> string set \<times> ValidDownloadItem list" where
  "parse_variant url_Parse st variant =
     (case st of (seenURLs, uniqueDownloads) \<Rightarrow>
        (let urlStr = DownloadURL variant;
             fileName = VariantFileName variant
         in if isValidDownloadURL url_Parse urlStr then
              (if urlStr \<notin> seenURLs then
                 (insert urlStr seenURLs,
                  uniqueDownloads @ [\<lparr>URL = urlStr, FileName = fileName\<rparr>])
               else (seenURLs, uniqueDownloads))
            else (seenURLs, uniqueDownloads)))"

definition parseJSONForDownloads ::
  "(string \<Rightarrow> JSONDataRoot option) \<Rightarrow> (string \<Rightarrow> url_URL option) \<Rightarrow> string
     \<Rightarrow> ValidDownloadItem list" where
  "parseJSONForDownloads json_Unmarshal url_Parse jsonData =
     (case json_Unmarshal jsonData of
        None \<Rightarrow> []
      | Some data \<Rightarrow>
          snd (foldl (\<lambda>st result. foldl (parse_variant url_Parse) st (Variants result))
                     ({}, []) (Results data)))"

text \<open>
  The Extractor of part_000: every URL the parser \<open>url.ParseRequestURI\<close> accepts is kept,
  then duplicates are removed. The map \<open>check\<close> is modelled by the set of its keys.
\<close>

record Variant =
  DownloadURL_part000 :: string

record Result =
  Variants_part000 :: "Variant list"

record Data =
  Results_part000 :: "Result list"

definition isUrlValid :: "(string \<Rightarrow> url_URL option) \<Rightarrow> string \<Rightarrow> bool" where
  "isUrlValid url_ParseRequestURI uri = (url_ParseRequestURI uri \<noteq> None)"

definition removeDuplicatesFromSlice :: "string list \<Rightarrow> string list" where
  "removeDuplicatesFromSlice slice =
     snd (foldl (\<lambda>(check, newReturnSlice) content.
                   if content \<notin> check then (insert content check, newReturnSlice @ [content])
                   else (check, newReturnSlice))
                ({}, []) slice)"

definition extractDownloadURLsFromJSON ::
  "(string \<Rightarrow> Data option) \<Rightarrow> (string \<Rightarrow> url_URL option) \<Rightarrow> string \<Rightarrow> string list" where
  "extractDownloadURLsFromJSON json_Unmarshal url_ParseRequestURI jsonData =
     (case json_Unmarshal jsonData of
        None \<Rightarrow> []
      | Some data \<Rightarrow>
          removeDuplicatesFromSlice
            (foldl (\<lambda>urls result.
                      foldl (\<lambda>urls variant.
                               if isUrlValid url_ParseRequestURI (DownloadURL_part000 variant)
                               then urls @ [DownloadURL_part000 variant] else urls)
                            urls (Variants_part000 result))
                   [] (Results_part000 data)))"

text \<open>
  A model of the parser of Go's \<open>net/url\<close>, for evaluating the Extractor on concrete URLs:
  the scheme split (\<open>getScheme\<close>), the query split, the rules for opaque and request
  URIs, and the authority up to the next slash, without its user information. The
  library's checks of percent escapes, ports and host characters are left out, so the
  model is meant for URLs without them. The general theorems take the parser as a
  parameter and do not depend on this model.
\<close>

definition stringContainsCTLByte :: "string \<Rightarrow> bool" where
  "stringContainsCTLByte s = (\<exists>c \<in> set s. (of_char c :: nat) < 32 \<or> (of_char c :: nat) = 127)"

definition isLetter :: "char \<Rightarrow> bool" where
  "isLetter c = ((97 \<le> (of_char c :: nat) \<and> (of_char c :: nat) \<le> 122) \<or> isUpper c)"

definition isDigit :: "char \<Rightarrow> bool" where
  "isDigit c = (48 \<le> (of_char c :: nat) \<and> (of_char c :: nat) \<le> 57)"

fun getScheme_from :: "string \<Rightarrow> string \<Rightarrow> (string \<times> string) option" where
  "getScheme_from seen [] = Some ([], rev seen)"
| "getScheme_from seen (c # cs) =
     (if isLetter c then getScheme_from (c # seen) cs
      else if isDigit c \<or> c = CHR ''+'' \<or> c = CHR ''-'' \<or> c = CHR ''.'' then
        (if seen = [] then Some ([], rev seen @ c # cs) else getScheme_from (c # seen) cs)
      else if c = CHR '':'' then
        (if seen = [] then None else Some (rev seen, cs))
      else Some ([], rev seen @ c # cs))"

definition getScheme :: "string \<Rightarrow> (string \<times> string) option" where
  "getScheme rawURL = getScheme_from [] rawURL"

definition parseAuthority :: "string \<Rightarrow> string" where
  "parseAuthority authority = rev (takeWhile (\<lambda>c. c \<noteq> CHR ''@'') (rev authority))"

definition url_parse :: "bool \<Rightarrow> string \<Rightarrow> url_URL option" where
  "url_parse viaRequest rawURL =
     (if stringContainsCTLByte rawURL then None
      else if rawURL = [] \<and> viaRequest then None
      else if rawURL = ''*'' then Some \<lparr>Scheme = [], Host = []\<rparr>
      else
        (case getScheme rawURL of
           None \<Rightarrow> None
         | Some (scheme0, rest0) \<Rightarrow>
             (let scheme = strings_ToLower scheme0;
                  rest = takeWhile (\<lambda>c. c \<noteq> CHR ''?'') rest0
              in if \<not> prefix ''/'' rest \<and> scheme \<noteq> [] then Some \<lparr>Scheme = scheme, Host = []\<rparr>
                 else if \<not> prefix ''/'' rest \<and> viaRequest then None
                 else if \<not> prefix ''/'' rest \<and> CHR '':'' \<in> set (takeWhile (\<lambda>c. c \<noteq> CHR ''/'') rest)
                   then None
                 else if (scheme \<noteq> [] \<or> (\<not> viaRequest \<and> \<not> prefix ''///'' rest))
                         \<and> prefix ''//'' rest then
                   Some \<lparr>Scheme = scheme,
                         Host = parseAuthority (takeWhile (\<lambda>c. c \<noteq> CHR ''/'') (drop 2 rest))\<rparr>
                 else Some \<lparr>Scheme = scheme, Host = []\<rparr>)))"

definition url_Parse :: "string \<Rightarrow> url_URL option" where
  "url_Parse rawURL = url_parse False (takeWhile (\<lambda>c. c \<noteq> CHR ''#'') rawURL)"

definition url_ParseRequestURI :: "string \<Rightarrow> url_URL option" where
  "url_ParseRequestURI rawURL = url_parse True rawURL"

section \<open>The pipeline of main.go from the extracted pages\<close>

text \<open>
  \<open>loadDownloadLogToMap\<close> reads the Ledger file into the in-memory set: the text before
  the first separator of every non-empty line.
\<close>

definition loadDownloadLogToMap :: "world \<Rightarrow> string \<Rightarrow> string set" where
  "loadDownloadLogToMap w logFilePath =
     (if \<not> doesFileExist w logFilePath then {}
      else
        (let fileContent = readAFileAsString w logFilePath;
             lines = strings_Split fileContent ''\<newline>''
         in foldl (\<lambda>downloadedURLs line.
                     if line \<noteq> [] then
                       (let parts = strings_Split line arrow
                        in if length parts > 0 then insert (hd parts) downloadedURLs
                           else downloadedURLs)
                     else downloadedURLs)
                  {} lines))"

text \<open>
  The download phase of \<open>main\<close>: the Ledger is loaded once, then the pages are processed in
  order, each page's items by the inner loop; the set and the world pass from one item to
  the next. \<open>pages\<close> holds the Extractor's output for every page whose JSON could be read.
  Fetching and caching the page JSON and creating the output directory are not part of
  this model: the output directory belongs to the starting world.
\<close>

definition main_pages ::
  "env \<Rightarrow> string \<Rightarrow> string \<Rightarrow> ValidDownloadItem list list \<Rightarrow> string set \<Rightarrow> world
     \<Rightarrow> download_error option list \<times> string set \<times> world" where
  "main_pages e outputDirectoryName downloadLogFileName pages S w =
     foldl (\<lambda>(errs, S1, w1) extractedDownloads.
              case main_downloads e outputDirectoryName downloadLogFileName
                     extractedDownloads S1 w1 of
                (errs2, S2, w2) \<Rightarrow> (errs @ errs2, S2, w2))
           ([], S, w) pages"

definition main_from_pages ::
  "env \<Rightarrow> string \<Rightarrow> string \<Rightarrow> ValidDownloadItem list list \<Rightarrow> world
     \<Rightarrow> download_error option list \<times> string set \<times> world" where
  "main_from_pages e outputDirectoryName downloadLogFileName pages w =
     main_pages e outputDirectoryName downloadLogFileName pages
       (loadDownloadLogToMap w downloadLogFileName) w"




section \<open>Example environments\<close>

text \<open>
  A server that answers every GET with a small PDF, one that answers 404 with an HTML page,
  one that answers the first GET with 429 and
  later ones with the PDF, a disk without write failures, and two starting worlds: an empty output directory, and
  one that already holds \<open>PDFs/report.pdf\<close>.
\<close>

definition pdf_reply :: get_result where
  "pdf_reply = GetOk (Response 200 ''200 OK'' ''application/pdf'' (ReadOk ''%PDF-1.4''))"

definition not_found_reply :: get_result where
  "not_found_reply = GetOk (Response 404 ''404 Not Found'' ''text/html'' (ReadOk ''<html>''))"

definition env_pdf :: env where
  "env_pdf = \<lparr>http_Get = (\<lambda>n u. pdf_reply), open_error = (\<lambda>p. None),
              write_error = (\<lambda>p d. None)\<rparr>"

definition env_not_found :: env where
  "env_not_found = \<lparr>http_Get = (\<lambda>n u. not_found_reply), open_error = (\<lambda>p. None),
                    write_error = (\<lambda>p d. None)\<rparr>"

definition world_empty :: world where
  "world_empty = \<lparr>files = [''PDFs'' \<mapsto> Dir], requests = [], sleeps = 0\<rparr>"

definition world_report :: world where
  "world_report =
     \<lparr>files = [''PDFs'' \<mapsto> Dir, ''PDFs/report.pdf'' \<mapsto> File ''%PDF-1.4''],
      requests = [], sleeps = 0\<rparr>"

definition busy_reply :: get_result where
  "busy_reply =
     GetOk (Response 429 ''429 Too Many Requests'' ''text/html'' (ReadOk ''slow down''))"

definition env_busy_once :: env where
  "env_busy_once = \<lparr>http_Get = (\<lambda>n u. if n = 0 then busy_reply else pdf_reply),
                    open_error = (\<lambda>p. None), write_error = (\<lambda>p d. None)\<rparr>"

definition world_logged :: world where
  "world_logged =
     \<lparr>files = [''PDFs'' \<mapsto> Dir,
               ''download.txt'' \<mapsto>
                  File (''https://host/file.pdf'' @ arrow @ ''PDFs/report.pdf'' @ ''\<newline>'')],
      requests = [], sleeps = 0\<rparr>"

definition page_shared_url :: JSONDataRoot where
  "page_shared_url =
     \<lparr>Results =
        [\<lparr>Variants = [\<lparr>DownloadURL = ''https://host/file.pdf'', VariantFileName = ''A.pdf''\<rparr>,
                      \<lparr>DownloadURL = ''https://host/file.pdf'', VariantFileName = ''B.pdf''\<rparr>]\<rparr>]\<rparr>"

definition page_ftp :: Data where
  "page_ftp = \<lparr>Results_part000 = [\<lparr>Variants_part000 = [\<lparr>DownloadURL_part000 = ''ftp://x/y.pdf''\<rparr>]\<rparr>]\<rparr>"

definition page_ftp_main :: JSONDataRoot where
  "page_ftp_main =
     \<lparr>Results = [\<lparr>Variants = [\<lparr>DownloadURL = ''ftp://x/y.pdf'', VariantFileName = ''y.pdf''\<rparr>]\<rparr>]\<rparr>"

definition pages_two :: "ValidDownloadItem list list" where
  "pages_two = [[\<lparr>URL = ''https://host/file.pdf'', FileName = ''Report.PDF''\<rparr>,
                 \<lparr>URL = ''https://host/other.pdf'', FileName = ''Other.pdf''\<rparr>]]"

definition world_unterminated :: world where
  "world_unterminated =
     \<lparr>files = [''PDFs'' \<mapsto> Dir, ''download.txt'' \<mapsto> File ''https://host/file.pdf''],
      requests = [], sleeps = 0\<rparr>"




section \<open>Facts about the file operations\<close>

lemma appendLineToFile_requests: "requests (appendLineToFile e p c w) = requests w"
  by (simp add: appendLineToFile_def os_OpenFile_append_def file_Write_def
           split: option.splits sum.splits prod.splits if_splits)

lemma appendLineToFile_sleeps: "sleeps (appendLineToFile e p c w) = sleeps w"
  by (simp add: appendLineToFile_def os_OpenFile_append_def file_Write_def
           split: option.splits sum.splits prod.splits if_splits)

lemma appendLineToFile_other: "q \<noteq> p \<Longrightarrow> files (appendLineToFile e p c w) q = files w q"
  by (simp add: appendLineToFile_def os_OpenFile_append_def file_Write_def
           split: option.splits sum.splits prod.splits if_splits)

lemma appendLineToFile_success:
  assumes "open_error e p = None" and "files w p \<noteq> Some Dir"
      and "write_error e p (c @ ''\<newline>'') = None"
  shows "appendLineToFile e p c w =
           w\<lparr>files := (files w)(p \<mapsto> File (file_content w p @ c @ ''\<newline>''))\<rparr>"
  using assms
  by (simp add: appendLineToFile_def os_OpenFile_append_def file_Write_def file_content_def)

lemma appendAndWriteToFile_eq: "appendAndWriteToFile e p c w = appendLineToFile e p c w"
  by (simp add: appendAndWriteToFile_def appendLineToFile_def)





lemma report_path: "filepath_Join ''PDFs'' (urlToFilename ''Report.PDF'') = ''PDFs/report.pdf''"
  by code_simp

section \<open>Single fetch attempts\<close>

text \<open>
  C4 (Ledger-hit fast path, main.go). When the URL is already in the in-memory Ledger set,
  \<open>downloadPDFFile\<close> returns \<open>nil\<close> at once: the set and the whole world (file system,
  Ledger file, request log) are returned unchanged, whatever the environment.
\<close>

theorem ledger_hit_fast_path:
  "finalURL \<in> alreadyDownloaded \<Longrightarrow>
     downloadPDFFile e finalURL outputDirectory filename logFilePath alreadyDownloaded w =
       (None, alreadyDownloaded, w)"
  by (simp add: downloadPDFFile_def)

theorem ledger_hit_fast_path_witness:
  "downloadPDFFile env_pdf ''https://host/file.pdf'' ''PDFs'' ''Report.PDF'' ''download.txt''
      {''https://host/file.pdf''} world_empty
     = (None, {''https://host/file.pdf''}, world_empty)"
  using ledger_hit_fast_path [of "''https://host/file.pdf''" "{''https://host/file.pdf''}"
          env_pdf "''PDFs''" "''Report.PDF''" "''download.txt''" world_empty]
  by simp

text \<open>
  C5 (Ledger-disk reconciliation). The URL is not in the Ledger and the derived local file
  exists on disk; the Ledger file can be opened and written. Then main.go's fetcher returns
  \<open>nil\<close>, adds the URL to the in-memory set and leaves a world that differs from the old
  one in the Ledger file alone, which has grown by the one line \<open>url \<rightarrow> path\<close>: no GET is
  recorded. part_000's fetcher does the same to the Ledger file and reports the skip as
  its \<open>file already exists\<close> error value; it has no in-memory set.
\<close>

theorem file_exists_reconciles_ledger:
  assumes canOpen: "open_error e logFilePath = None" "files w logFilePath \<noteq> Some Dir"
      and canWrite: "\<forall>d. write_error e logFilePath d = None"
  shows "(finalURL \<notin> alreadyDownloaded \<and>
          doesFileExist w (filepath_Join outputDirectory (urlToFilename filename)) \<longrightarrow>
            downloadPDFFile e finalURL outputDirectory filename logFilePath alreadyDownloaded w =
              (None, insert finalURL alreadyDownloaded,
               w\<lparr>files := (files w)(logFilePath \<mapsto> File (file_content w logFilePath @
                    finalURL @ arrow @ filepath_Join outputDirectory (urlToFilename filename)
                    @ ''\<newline>''))\<rparr>))
       \<and> (\<not> strings_Contains (file_content w logFilePath) finalURL \<and>
          fileExists w (filepath_Join outputDirectory
                          (strings_ToLower (urlToFilename_part000 sha256_Sum256 finalURL))) \<longrightarrow>
            downloadPDF e sha256_Sum256 finalURL outputDirectory logFilePath w =
              (Some (FileExistsError
                       (filepath_Join outputDirectory
                          (strings_ToLower (urlToFilename_part000 sha256_Sum256 finalURL)))
                       finalURL),
               w\<lparr>files := (files w)(logFilePath \<mapsto> File (file_content w logFilePath @
                    finalURL @ arrow @
                    filepath_Join outputDirectory
                      (strings_ToLower (urlToFilename_part000 sha256_Sum256 finalURL))
                    @ ''\<newline>''))\<rparr>))"
proof -
  have app: "appendLineToFile e logFilePath line w =
      w\<lparr>files := (files w)(logFilePath \<mapsto> File (file_content w logFilePath @ line @ ''\<newline>''))\<rparr>"
    for line
    using canOpen canWrite by (intro appendLineToFile_success) simp_all
  have main: "finalURL \<notin> alreadyDownloaded \<Longrightarrow>
      doesFileExist w (filepath_Join outputDirectory (urlToFilename filename)) \<Longrightarrow>
      downloadPDFFile e finalURL outputDirectory filename logFilePath alreadyDownloaded w =
        (None, insert finalURL alreadyDownloaded,
         appendLineToFile e logFilePath
           (finalURL @ arrow @ filepath_Join outputDirectory (urlToFilename filename)) w)"
    by (simp add: downloadPDFFile_def)
  have part: "\<not> strings_Contains (file_content w logFilePath) finalURL \<Longrightarrow>
      fileExists w (filepath_Join outputDirectory
                      (strings_ToLower (urlToFilename_part000 sha256_Sum256 finalURL))) \<Longrightarrow>
      downloadPDF e sha256_Sum256 finalURL outputDirectory logFilePath w =
        (Some (FileExistsError
                 (filepath_Join outputDirectory
                    (strings_ToLower (urlToFilename_part000 sha256_Sum256 finalURL)))
                 finalURL),
         appendLineToFile e logFilePath
           (finalURL @ arrow @ filepath_Join outputDirectory
              (strings_ToLower (urlToFilename_part000 sha256_Sum256 finalURL))) w)"
    by (auto simp: downloadPDF_def Let_def readAFileAsString_part000_def
                   appendAndWriteToFile_eq fileExists_def file_content_def
             split: option.splits node.splits)
  show ?thesis
    using main part by (simp add: app)
qed

theorem file_exists_reconciles_ledger_witness:
  "downloadPDFFile env_pdf ''https://host/file.pdf'' ''PDFs'' ''Report.PDF'' ''download.txt''
      {} world_report
     = (None, {''https://host/file.pdf''},
        world_report\<lparr>files := (files world_report)(''download.txt'' \<mapsto>
           File (''https://host/file.pdf'' @ arrow @ ''PDFs/report.pdf'' @ ''\<newline>''))\<rparr>)"
proof -
  have open_ok: "open_error env_pdf ''download.txt'' = None"
    and not_dir: "files world_report ''download.txt'' \<noteq> Some Dir"
    and write_ok: "\<forall>d. write_error env_pdf ''download.txt'' d = None"
    by (simp_all add: env_pdf_def world_report_def)
  have on_disk: "doesFileExist world_report (filepath_Join ''PDFs'' (urlToFilename ''Report.PDF''))"
    by (simp add: report_path doesFileExist_def world_report_def)
  have empty_ledger: "file_content world_report ''download.txt'' = []"
    by (simp add: file_content_def world_report_def)
  from file_exists_reconciles_ledger [OF open_ok not_dir write_ok,
         of "''https://host/file.pdf''" "{}" "''PDFs''" "''Report.PDF''"] on_disk
  show ?thesis
    by (simp add: report_path empty_ledger)
qed

text \<open>
  C8 (failure atomicity). The server's reply to the GET is not status 200, or its
  Content-Type does not contain \<open>application/pdf\<close>, or reading its body fails, or its body
  is empty. Then the fetch ends in an error, and the world afterwards is the world before
  with the GET added to the request log: no file is created or changed, the Ledger file
  and the in-memory set are as before. This holds for \<open>downloadPDFFile\<close> of main.go and
  for \<open>downloadPDF\<close> of part_000, whenever they reach the GET.
\<close>

theorem failed_fetch_leaves_disk_and_ledger:
  assumes reply: "http_Get e (length (requests w)) finalURL = GetOk resp"
      and bad: "StatusCode resp \<noteq> 200
                \<or> \<not> strings_Contains (ContentType resp) ''application/pdf''
                \<or> (\<exists>err. Body resp = ReadFailed err)
                \<or> Body resp = ReadOk []"
  shows "(finalURL \<notin> alreadyDownloaded \<and>
          \<not> doesFileExist w (filepath_Join outputDirectory (urlToFilename filename)) \<longrightarrow>
            (\<exists>err. downloadPDFFile e finalURL outputDirectory filename logFilePath
                       alreadyDownloaded w =
                     (Some err, alreadyDownloaded, w\<lparr>requests := requests w @ [finalURL]\<rparr>)))
       \<and> (\<not> fileExists w (filepath_Join outputDirectory
                            (strings_ToLower (urlToFilename_part000 sha256_Sum256 finalURL))) \<longrightarrow>
            (\<exists>err. downloadPDF e sha256_Sum256 finalURL outputDirectory logFilePath w =
                     (Some err, w\<lparr>requests := requests w @ [finalURL]\<rparr>)))"
  using reply bad
  by (auto simp: downloadPDFFile_def downloadPDF_def Let_def split: read_result.splits)

theorem failed_fetch_leaves_disk_and_ledger_witness:
  "(\<exists>err. downloadPDFFile env_not_found ''https://host/file.pdf'' ''PDFs'' ''Report.PDF''
             ''download.txt'' {} world_empty =
           (Some err, {}, world_empty\<lparr>requests := [''https://host/file.pdf'']\<rparr>))"
proof -
  have reply: "http_Get env_not_found (length (requests world_empty)) ''https://host/file.pdf''
                 = GetOk (Response 404 ''404 Not Found'' ''text/html'' (ReadOk ''<html>''))"
    by (simp add: env_not_found_def not_found_reply_def)
  have no_file: "\<not> doesFileExist world_empty (filepath_Join ''PDFs'' (urlToFilename ''Report.PDF''))"
    by (simp add: report_path doesFileExist_def world_empty_def)
  have reqs: "requests world_empty = []"
    by (simp add: world_empty_def)
  from failed_fetch_leaves_disk_and_ledger [OF reply, of "{}" "''PDFs''" "''Report.PDF''"
         "''download.txt''"] no_file
  show ?thesis
    by (simp add: reqs)
qed






section \<open>The Orchestrator: retry after 429, and the resume check of part_000\<close>

lemma downloadPDFFile_sleeps:
  "downloadPDFFile e u dir f logp S w = (r, S', w') \<Longrightarrow> sleeps w' = sleeps w"
  by (auto simp: downloadPDFFile_def Let_def appendLineToFile_sleeps os_Create_def file_Write_def
           split: get_result.splits read_result.splits if_splits sum.splits prod.splits
                  option.splits)

lemma downloadPDFFile_requests:
  "downloadPDFFile e u dir f logp S w = (r, S', w') \<Longrightarrow>
     requests w' = requests w \<or> requests w' = requests w @ [u]"
  by (auto simp: downloadPDFFile_def Let_def appendLineToFile_requests os_Create_def
                 file_Write_def
           split: get_result.splits read_result.splits if_splits sum.splits prod.splits
                  option.splits)

lemma downloadPDFFile_error:
  "downloadPDFFile e u dir f logp S w = (Some err, S', w') \<Longrightarrow>
     requests w' = requests w @ [u] \<and> S' = S"
  by (auto simp: downloadPDFFile_def Let_def os_Create_def file_Write_def
           split: get_result.splits read_result.splits if_splits sum.splits prod.splits
                  option.splits)

text \<open>
  The retry policy of main.go. When the first attempt for an item fails and the error text
  contains \<open>429\<close>, the loop body sleeps once and its result is that of one second attempt,
  whatever it is: one cooldown, at most two GETs, no third attempt. When the error text
  does not contain \<open>429\<close>, the first attempt's result stands: one GET, no sleep.
\<close>

lemma main_download_retries_once_after_429:
  assumes first: "downloadPDFFile e (URL item) dir (FileName item) logp S w = (Some err, S1, w1)"
  shows "if strings_Contains (Error err) ''429''
         then main_download e dir logp item S w =
                downloadPDFFile e (URL item) dir (FileName item) logp S
                  (w1\<lparr>sleeps := sleeps w1 + 1\<rparr>)
            \<and> sleeps (snd (snd (main_download e dir logp item S w))) = sleeps w + 1
            \<and> (requests (snd (snd (main_download e dir logp item S w)))
                  = requests w @ [URL item]
               \<or> requests (snd (snd (main_download e dir logp item S w)))
                  = requests w @ [URL item, URL item])
         else main_download e dir logp item S w = (Some err, S, w1)
            \<and> sleeps w1 = sleeps w \<and> requests w1 = requests w @ [URL item]"
proof -
  from first have S1: "S1 = S" and r1: "requests w1 = requests w @ [URL item]"
    by (auto dest: downloadPDFFile_error)
  from first have s1: "sleeps w1 = sleeps w"
    by (rule downloadPDFFile_sleeps)
  show ?thesis
  proof (cases "strings_Contains (Error err) ''429''")
    case False
    with first S1 s1 r1 show ?thesis
      by (simp add: main_download_def)
  next
    case True
    let ?w2 = "w1\<lparr>sleeps := sleeps w1 + 1\<rparr>"
    obtain r S' w' where
      second: "downloadPDFFile e (URL item) dir (FileName item) logp S ?w2 = (r, S', w')"
      by (cases "downloadPDFFile e (URL item) dir (FileName item) logp S ?w2") auto
    from True first S1 second
    have eq: "main_download e dir logp item S w = (r, S', w')"
      by (simp add: main_download_def)
    from second have "sleeps w' = sleeps ?w2"
      by (rule downloadPDFFile_sleeps)
    moreover from second have "requests w' = requests ?w2 \<or> requests w' = requests ?w2 @ [URL item]"
      by (rule downloadPDFFile_requests)
    ultimately show ?thesis
      using True eq second s1 r1 by auto
  qed
qed

lemma fileExists_world_empty: "\<not> fileExists world_empty p"
  by (simp add: fileExists_def world_empty_def)

text \<open>The loop body of part_000 performs at most one GET for a URL, whatever the server.\<close>

lemma downloadPDF_requests:
  "downloadPDF e h u dir logp w = (r, w') \<Longrightarrow>
     requests w' = requests w \<or> requests w' = requests w @ [u]"
  by (auto simp: downloadPDF_def Let_def appendAndWriteToFile_eq appendLineToFile_requests
                 os_Create_def file_Write_def
           split: get_result.splits read_result.splits if_splits sum.splits prod.splits
                  option.splits)

lemma main_part000_download_at_most_one_get:
  "requests (main_part000_download e h dir logp xs u w) = requests w
   \<or> requests (main_part000_download e h dir logp xs u w) = requests w @ [u]"
proof (cases "downloadPDF e h u dir logp w")
  case (Pair r w')
  then have "requests w' = requests w \<or> requests w' = requests w @ [u]"
    by (rule downloadPDF_requests)
  with Pair show ?thesis
    by (auto simp: main_part000_download_def Let_def split: option.splits)
qed

text \<open>
  C3 (429 backoff), at its failing input in part_000. The server answers the first GET with
  429 and every later GET with a PDF; the output directory is empty and there is no
  Ledger file. The download loop of part_000 performs one GET and one cooldown sleep and
  ends: the item is not fetched again, and the Ledger file is never created. This holds
  for every digest function.
\<close>

theorem part000_sleeps_without_retry:
  "\<forall>sha256_Sum256.
     requests (main_part000_downloads env_busy_once sha256_Sum256 ''PDFs/'' ''download.txt''
                 [''https://host/file.pdf''] world_empty) = [''https://host/file.pdf'']
   \<and> sleeps (main_part000_downloads env_busy_once sha256_Sum256 ''PDFs/'' ''download.txt''
                 [''https://host/file.pdf''] world_empty) = 1
   \<and> files (main_part000_downloads env_busy_once sha256_Sum256 ''PDFs/'' ''download.txt''
                 [''https://host/file.pdf''] world_empty) = files world_empty"
proof (intro allI)
  fix sha256_Sum256 :: "string \<Rightarrow> string"
  define url where "url = ''https://host/file.pdf''"
  have reply: "http_Get env_busy_once (length (requests world_empty)) url = busy_reply"
    by (simp add: env_busy_once_def world_empty_def)
  have ne: "url \<noteq> []"
    by (simp add: url_def)
  have sig: "strings_Contains (Error (StatusError url ''429 Too Many Requests'')) ''429''"
    unfolding url_def by code_simp
  have dl: "downloadPDF env_busy_once sha256_Sum256 url ''PDFs/'' ''download.txt'' world_empty =
          (Some (StatusError url ''429 Too Many Requests''),
           world_empty\<lparr>requests := requests world_empty @ [url]\<rparr>)"
    by (simp add: downloadPDF_def Let_def fileExists_world_empty reply busy_reply_def)
  have "main_part000_download env_busy_once sha256_Sum256 ''PDFs/'' ''download.txt'' [url] url
          world_empty
        = world_empty\<lparr>requests := requests world_empty @ [url], sleeps := sleeps world_empty + 1\<rparr>"
    using sig ne by (simp add: main_part000_download_def Let_def fileExists_world_empty dl)
  then have "main_part000_downloads env_busy_once sha256_Sum256 ''PDFs/'' ''download.txt'' [url]
               world_empty
        = world_empty\<lparr>requests := requests world_empty @ [url], sleeps := sleeps world_empty + 1\<rparr>"
    by (simp add: main_part000_downloads_def)
  then show "requests (main_part000_downloads env_busy_once sha256_Sum256 ''PDFs/''
                 ''download.txt'' [''https://host/file.pdf''] world_empty)
               = [''https://host/file.pdf'']
   \<and> sleeps (main_part000_downloads env_busy_once sha256_Sum256 ''PDFs/'' ''download.txt''
                 [''https://host/file.pdf''] world_empty) = 1
   \<and> files (main_part000_downloads env_busy_once sha256_Sum256 ''PDFs/'' ''download.txt''
                 [''https://host/file.pdf''] world_empty) = files world_empty"
    unfolding url_def by (simp add: world_empty_def)
qed

text \<open>The same server and world under main.go: the item is fetched twice and recorded.\<close>

lemma main_retry_example:
  "case main_download env_busy_once ''PDFs'' ''download.txt''
          \<lparr>URL = ''https://host/file.pdf'', FileName = ''Report.PDF''\<rparr> {} world_empty of
     (r, S, w) \<Rightarrow> r = None \<and> S = {''https://host/file.pdf''}
        \<and> requests w = [''https://host/file.pdf'', ''https://host/file.pdf'']
        \<and> sleeps w = 1
        \<and> files w ''PDFs/report.pdf'' = Some (File ''%PDF-1.4'')"
  by code_simp

lemma strings_Contains_iff: "strings_Contains s sub \<longleftrightarrow> (\<exists>before after. s = before @ sub @ after)"
proof (induction s)
  case Nil
  then show ?case by auto
next
  case (Cons c cs)
  show ?case
  proof
    assume "strings_Contains (c # cs) sub"
    then consider "prefix sub (c # cs)" | "strings_Contains cs sub" by auto
    then show "\<exists>before after. c # cs = before @ sub @ after"
    proof cases
      case 1
      then obtain after where "c # cs = sub @ after" by (auto simp: prefix_def)
      then have "c # cs = [] @ sub @ after" by simp
      then show ?thesis by blast
    next
      case 2
      with Cons.IH obtain before after where "cs = before @ sub @ after" by blast
      then have "c # cs = (c # before) @ sub @ after" by simp
      then show ?thesis by blast
    qed
  next
    assume "\<exists>before after. c # cs = before @ sub @ after"
    then obtain before after where eq: "c # cs = before @ sub @ after" by blast
    show "strings_Contains (c # cs) sub"
    proof (cases before)
      case Nil
      with eq have "prefix sub (c # cs)" by (simp add: prefix_def)
      then show ?thesis by simp
    next
      case (Cons b bs)
      with eq have "cs = bs @ sub @ after" by simp
      with Cons.IH have "strings_Contains cs sub" by blast
      then show ?thesis by simp
    qed
  qed
qed

text \<open>
  C10 (substring-based resume check, part_000). The Ledger file exists and the URL occurs
  anywhere in its text: \<open>ledger = before @ url @ after\<close>, so as a prefix of a longer
  recorded URL or inside a recorded path as well. Then the loop body of part_000 does
  nothing for that URL: the world is unchanged (no GET, no file, no Ledger line); and a
  loop over URLs that all occur in the Ledger text leaves the world unchanged.
\<close>

theorem substring_resume_check:
  assumes ledger: "files w downloadedFilesURLLocation = Some (File ledger)"
  shows "(ledger = before @ url @ after \<longrightarrow>
            main_part000_download e sha256_Sum256 outputDir downloadedFilesURLLocation
              extractedURL url w = w)
       \<and> ((\<forall>u \<in> set extractedURL. \<exists>b a. ledger = b @ u @ a) \<longrightarrow>
            main_part000_downloads e sha256_Sum256 outputDir downloadedFilesURLLocation
              extractedURL w = w)"
proof -
  have read: "(if fileExists w downloadedFilesURLLocation
               then readAFileAsString_part000 w downloadedFilesURLLocation else []) = ledger"
    using ledger by (simp add: fileExists_def readAFileAsString_part000_def file_content_def)
  have one: "main_part000_download e sha256_Sum256 outputDir downloadedFilesURLLocation xs u w = w"
    if "\<exists>b a. ledger = b @ u @ a" for u xs
  proof -
    from that have "strings_Contains ledger u"
      by (simp add: strings_Contains_iff)
    with read show ?thesis
      by (simp add: main_part000_download_def)
  qed
  have many: "foldl (\<lambda>w1 u. main_part000_download e sha256_Sum256 outputDir
                               downloadedFilesURLLocation xs u w1) w us = w"
    if "\<forall>u \<in> set us. \<exists>b a. ledger = b @ u @ a" for us xs
    using that by (induction us) (simp_all add: one)
  show ?thesis
    using one many by (auto simp: main_part000_downloads_def)
qed

theorem substring_resume_check_witness:
  "\<forall>sha256_Sum256.
     main_part000_download env_pdf sha256_Sum256 ''PDFs/'' ''download.txt''
       [''https://host/file''] ''https://host/file'' world_logged = world_logged
   \<and> main_part000_download env_pdf sha256_Sum256 ''PDFs/'' ''download.txt''
       [''/report.pdf''] ''/report.pdf'' world_logged = world_logged"
proof -
  have ledger: "files world_logged ''download.txt''
                  = Some (File (''https://host/file.pdf'' @ arrow @ ''PDFs/report.pdf'' @ ''\<newline>''))"
    by (simp add: world_logged_def)
  have prefix_of_url: "''https://host/file.pdf'' @ arrow @ ''PDFs/report.pdf'' @ ''\<newline>''
          = [] @ ''https://host/file'' @ (''.pdf'' @ arrow @ ''PDFs/report.pdf'' @ ''\<newline>'')"
    by simp
  have inside_path: "''https://host/file.pdf'' @ arrow @ ''PDFs/report.pdf'' @ ''\<newline>''
          = (''https://host/file.pdf'' @ arrow @ ''PDFs'') @ ''/report.pdf'' @ ''\<newline>''"
    by simp
  from substring_resume_check [OF ledger, THEN conjunct1, rule_format, OF prefix_of_url]
       substring_resume_check [OF ledger, THEN conjunct1, rule_format, OF inside_path]
  show ?thesis by blast
qed

section \<open>The URL Extractor: validation and deduplication\<close>

lemma foldl_nested_concat:
  "foldl (\<lambda>st r. foldl f st (g r)) a rs = foldl f a (concat (map g rs))"
  by (induction rs arbitrary: a) simp_all

lemma first_occurrences_snoc:
  "rev (remdups (rev (us @ [u]))) =
     (if u \<in> set us then rev (remdups (rev us)) else rev (remdups (rev us)) @ [u])"
  by simp

lemma parse_variant_loop:
  assumes "foldl (parse_variant p) ({}, []) vs = (seen, out)"
  shows "seen = set (map URL out)
       \<and> map URL out = rev (remdups (rev (map DownloadURL
                          (filter (\<lambda>v. isValidDownloadURL p (DownloadURL v)) vs))))
       \<and> (\<forall>item \<in> set out.
            map_of (map (\<lambda>v. (DownloadURL v, VariantFileName v))
                      (filter (\<lambda>v. isValidDownloadURL p (DownloadURL v)) vs)) (URL item)
              = Some (FileName item))"
  using assms
proof (induction vs arbitrary: seen out rule: rev_induct)
  case Nil
  then show ?case by simp
next
  case (snoc v vs)
  let ?valid = "\<lambda>v. isValidDownloadURL p (DownloadURL v)"
  let ?kv = "\<lambda>v. (DownloadURL v, VariantFileName v)"
  obtain seen0 out0 where before: "foldl (parse_variant p) ({}, []) vs = (seen0, out0)"
    by (cases "foldl (parse_variant p) ({}, []) vs") auto
  from snoc.IH [OF before]
  have seen0: "seen0 = set (map URL out0)"
    and urls0: "map URL out0 = rev (remdups (rev (map DownloadURL (filter ?valid vs))))"
    and names0: "\<forall>item \<in> set out0.
                   map_of (map ?kv (filter ?valid vs)) (URL item) = Some (FileName item)"
    by blast+
  from snoc.prems before have step: "parse_variant p (seen0, out0) v = (seen, out)"
    by simp
  show ?case
  proof (cases "?valid v")
    case False
    with step have "seen = seen0" "out = out0"
      by (auto simp: parse_variant_def Let_def)
    with False seen0 urls0 names0 show ?thesis by simp
  next
    case valid: True
    show ?thesis
    proof (cases "DownloadURL v \<in> seen0")
      case True
      with valid step have same: "seen = seen0" "out = out0"
        by (auto simp: parse_variant_def Let_def)
      from True seen0 urls0 have known: "DownloadURL v \<in> set (map DownloadURL (filter ?valid vs))"
        by simp
      have "map URL out = rev (remdups (rev (map DownloadURL (filter ?valid (vs @ [v])))))"
        using valid known urls0 same by simp
      moreover have "\<forall>item \<in> set out.
          map_of (map ?kv (filter ?valid (vs @ [v]))) (URL item) = Some (FileName item)"
        using valid names0 same by (simp add: map_add_def)
      moreover have "seen = set (map URL out)"
        using same seen0 by simp
      ultimately show ?thesis by blast
    next
      case False
      with valid step have new: "seen = insert (DownloadURL v) seen0"
        "out = out0 @ [\<lparr>URL = DownloadURL v, FileName = VariantFileName v\<rparr>]"
        by (auto simp: parse_variant_def Let_def)
      from False seen0 urls0 have fresh: "DownloadURL v \<notin> set (map DownloadURL (filter ?valid vs))"
        by simp
      then have none: "map_of (map ?kv (filter ?valid vs)) (DownloadURL v) = None"
        by (simp add: map_of_eq_None_iff image_image)
      have "map URL out = rev (remdups (rev (map DownloadURL (filter ?valid (vs @ [v])))))"
        using valid fresh urls0 new by simp
      moreover have "\<forall>item \<in> set out.
          map_of (map ?kv (filter ?valid (vs @ [v]))) (URL item) = Some (FileName item)"
        using valid names0 new none by (simp add: map_add_def)
      moreover have "seen = set (map URL out)"
        using new seen0 by simp
      ultimately show ?thesis by blast
    qed
  qed
qed

lemma removeDuplicates_loop:
  assumes "foldl (\<lambda>(check, newReturnSlice) content.
                   if content \<notin> check then (insert content check, newReturnSlice @ [content])
                   else (check, newReturnSlice))
                ({}, []) slice = (check, out)"
  shows "check = set out \<and> out = rev (remdups (rev slice))"
  using assms
proof (induction slice arbitrary: check out rule: rev_induct)
  case Nil
  then show ?case by simp
next
  case (snoc x xs)
  let ?step = "\<lambda>(check, newReturnSlice) content.
                   if content \<notin> check then (insert content check, newReturnSlice @ [content])
                   else (check, newReturnSlice)"
  obtain check0 out0 where before: "foldl ?step ({}, []) xs = (check0, out0)"
    by (cases "foldl ?step ({}, []) xs") auto
  from snoc.IH [OF before] have inv: "check0 = set out0" "out0 = rev (remdups (rev xs))"
    by blast+
  from snoc.prems before have "?step (check0, out0) x = (check, out)"
    by simp
  with inv show ?case
    by (cases "x \<in> check0") auto
qed

lemma removeDuplicatesFromSlice_eq:
  "removeDuplicatesFromSlice slice = rev (remdups (rev slice))"
proof -
  obtain check out where
    "foldl (\<lambda>(check, newReturnSlice) content.
               if content \<notin> check then (insert content check, newReturnSlice @ [content])
               else (check, newReturnSlice))
           ({}, []) slice = (check, out)"
    by (cases "foldl (\<lambda>(check, newReturnSlice) content.
               if content \<notin> check then (insert content check, newReturnSlice @ [content])
               else (check, newReturnSlice))
           ({}, []) slice") auto
  from removeDuplicates_loop [OF this] this show ?thesis
    by (simp add: removeDuplicatesFromSlice_def)
qed

lemma extractor_urls:
  assumes page: "json_Unmarshal jsonData = Some data"
  shows "map URL (parseJSONForDownloads json_Unmarshal parse jsonData)
           = rev (remdups (rev (map DownloadURL
               (filter (\<lambda>v. isValidDownloadURL parse (DownloadURL v))
                  (concat (map Variants (Results data)))))))"
proof -
  obtain seen where
    "foldl (parse_variant parse) ({}, []) (concat (map Variants (Results data)))
       = (seen, parseJSONForDownloads json_Unmarshal parse jsonData)"
    using page
    by (cases "foldl (parse_variant parse) ({}, []) (concat (map Variants (Results data)))")
       (simp add: parseJSONForDownloads_def foldl_nested_concat)
  from parse_variant_loop [OF this] show ?thesis by blast
qed

text \<open>
  C7 (Extractor deduplication). Let \<open>variants\<close> be the variants of a decoded page in
  traversal order, and \<open>valid\<close> those whose URL passes the validation. The URLs of the
  Extractor's output are the URLs of \<open>valid\<close> with every later duplicate removed, in the
  order of their first occurrences, so no two items share a URL; and the name kept for a
  URL is the name of the first valid variant with that URL. A page whose two variants
  share one valid URL yields exactly one item, with the first variant's name. The
  duplicate removal of part_000 keeps the first occurrences in order as well.
\<close>

theorem extractor_keeps_first_occurrences:
  assumes page: "json_Unmarshal jsonData = Some data"
  shows "distinct (map URL (parseJSONForDownloads json_Unmarshal parse jsonData))
       \<and> map URL (parseJSONForDownloads json_Unmarshal parse jsonData)
           = rev (remdups (rev (map DownloadURL
               (filter (\<lambda>v. isValidDownloadURL parse (DownloadURL v))
                  (concat (map Variants (Results data)))))))
       \<and> (\<forall>item \<in> set (parseJSONForDownloads json_Unmarshal parse jsonData).
             map_of (map (\<lambda>v. (DownloadURL v, VariantFileName v))
                       (filter (\<lambda>v. isValidDownloadURL parse (DownloadURL v))
                          (concat (map Variants (Results data))))) (URL item)
               = Some (FileName item))
       \<and> (isValidDownloadURL parse u \<and>
          Results data = [\<lparr>Variants = [\<lparr>DownloadURL = u, VariantFileName = name1\<rparr>,
                                       \<lparr>DownloadURL = u, VariantFileName = name2\<rparr>]\<rparr>] \<longrightarrow>
            parseJSONForDownloads json_Unmarshal parse jsonData
              = [\<lparr>URL = u, FileName = name1\<rparr>])
       \<and> distinct (removeDuplicatesFromSlice slice)
       \<and> removeDuplicatesFromSlice slice = rev (remdups (rev slice))"
proof -
  let ?vs = "concat (map Variants (Results data))"
  let ?out = "parseJSONForDownloads json_Unmarshal parse jsonData"
  obtain seen where loop: "foldl (parse_variant parse) ({}, []) ?vs = (seen, ?out)"
    using page
    by (cases "foldl (parse_variant parse) ({}, []) ?vs")
       (simp add: parseJSONForDownloads_def foldl_nested_concat)
  note inv = parse_variant_loop [OF loop]
  from inv have urls: "map URL ?out = rev (remdups (rev (map DownloadURL
               (filter (\<lambda>v. isValidDownloadURL parse (DownloadURL v)) ?vs))))"
    by blast
  then have "distinct (map URL ?out)"
    by simp
  moreover have "isValidDownloadURL parse u \<Longrightarrow>
          Results data = [\<lparr>Variants = [\<lparr>DownloadURL = u, VariantFileName = name1\<rparr>,
                                       \<lparr>DownloadURL = u, VariantFileName = name2\<rparr>]\<rparr>] \<Longrightarrow>
            ?out = [\<lparr>URL = u, FileName = name1\<rparr>]"
    using page by (simp add: parseJSONForDownloads_def parse_variant_def Let_def)
  moreover have "distinct (removeDuplicatesFromSlice slice)"
    by (simp add: removeDuplicatesFromSlice_eq)
  ultimately show ?thesis
    using inv removeDuplicatesFromSlice_eq by blast
qed

theorem extractor_keeps_first_occurrences_witness:
  "parseJSONForDownloads (\<lambda>jsonData. Some page_shared_url) url_Parse ''{}''
     = [\<lparr>URL = ''https://host/file.pdf'', FileName = ''A.pdf''\<rparr>]"
proof -
  have page: "(\<lambda>jsonData. Some page_shared_url) ''{}'' = Some page_shared_url"
    by simp
  have valid: "isValidDownloadURL url_Parse ''https://host/file.pdf''"
    by code_simp
  have shape: "Results page_shared_url =
      [\<lparr>Variants = [\<lparr>DownloadURL = ''https://host/file.pdf'', VariantFileName = ''A.pdf''\<rparr>,
                    \<lparr>DownloadURL = ''https://host/file.pdf'', VariantFileName = ''B.pdf''\<rparr>]\<rparr>]"
    by (simp add: page_shared_url_def)
  from extractor_keeps_first_occurrences [OF page, where parse = url_Parse
         and u = "''https://host/file.pdf''" and ?name1.0 = "''A.pdf''" and ?name2.0 = "''B.pdf''"]
       valid shape
  show ?thesis by blast
qed

text \<open>
  The validation of main.go, for any parser: a URL is valid exactly when it parses, its
  scheme and host are not empty, and its scheme is \<open>http\<close> or \<open>https\<close> in any letter
  case; and the Extractor keeps exactly the URLs of the valid variants.
\<close>

lemma isValidDownloadURL_iff:
  "isValidDownloadURL parse rawURL \<longleftrightarrow>
     (\<exists>parsedURL. parse rawURL = Some parsedURL
        \<and> Scheme parsedURL \<noteq> [] \<and> Host parsedURL \<noteq> []
        \<and> (strings_ToLower (Scheme parsedURL) = ''http''
           \<or> strings_ToLower (Scheme parsedURL) = ''https''))"
  by (auto simp: isValidDownloadURL_def Let_def split: option.splits)

lemma main_extractor_keeps_valid_urls:
  assumes page: "json_Unmarshal jsonData = Some data"
  shows "set (map URL (parseJSONForDownloads json_Unmarshal parse jsonData))
           = {u \<in> set (map DownloadURL (concat (map Variants (Results data)))).
                isValidDownloadURL parse u}"
proof -
  have "set (map URL (parseJSONForDownloads json_Unmarshal parse jsonData))
          = set (map DownloadURL (filter (\<lambda>v. isValidDownloadURL parse (DownloadURL v))
                   (concat (map Variants (Results data)))))"
    using extractor_urls [where json_Unmarshal = json_Unmarshal and jsonData = jsonData, OF page,
            of parse]
    by simp
  then show ?thesis by auto
qed

lemma main_validation_examples:
  "\<not> isValidDownloadURL url_Parse ''ftp://x/y.pdf''"
  "\<not> isValidDownloadURL url_Parse ''''"
  "isValidDownloadURL url_Parse ''https://host/file.pdf''"
  by code_simp+

text \<open>The Extractor of part_000 keeps every URL its parser accepts, whatever the scheme.\<close>

lemma part000_extractor_keeps_parseable:
  assumes page: "json_Unmarshal jsonData = Some data"
  shows "set (extractDownloadURLsFromJSON json_Unmarshal parse jsonData)
           = {u \<in> set (map DownloadURL_part000 (concat (map Variants_part000 (Results_part000 data)))).
                parse u \<noteq> None}"
proof -
  have inner: "foldl (\<lambda>urls variant.
                        if isUrlValid parse (DownloadURL_part000 variant)
                        then urls @ [DownloadURL_part000 variant] else urls) acc vs
                 = acc @ filter (\<lambda>u. parse u \<noteq> None) (map DownloadURL_part000 vs)"
    for acc and vs :: "Variant list"
    by (induction vs arbitrary: acc) (simp_all add: isUrlValid_def)
  have outer: "foldl (\<lambda>urls result. urls @ g result) acc rs = acc @ concat (map g rs)"
    for acc :: "string list" and rs :: "Result list" and g
    by (induction rs arbitrary: acc) simp_all
  have "extractDownloadURLsFromJSON json_Unmarshal parse jsonData
          = removeDuplicatesFromSlice (filter (\<lambda>u. parse u \<noteq> None)
              (map DownloadURL_part000 (concat (map Variants_part000 (Results_part000 data)))))"
    using page
    by (simp add: extractDownloadURLsFromJSON_def inner outer map_concat filter_concat comp_def)
  then show ?thesis
    by (auto simp: removeDuplicatesFromSlice_eq)
qed

text \<open>
  C6 (Extractor URL validation), at its failing input in part_000: a page whose one
  variant has the URL \<open>ftp://x/y.pdf\<close>. \<open>url.ParseRequestURI\<close> accepts it, so the
  Extractor of part_000 keeps it; the Extractor of main.go drops it.
\<close>

theorem part000_extractor_keeps_ftp:
  "extractDownloadURLsFromJSON (\<lambda>jsonData. Some page_ftp) url_ParseRequestURI ''{}''
     = [''ftp://x/y.pdf'']
   \<and> parseJSONForDownloads (\<lambda>jsonData. Some page_ftp_main) url_Parse ''{}'' = []"
  by code_simp

section \<open>The Filename Sanitizer\<close>

lemma toLowerByte_idem: "toLowerByte (toLowerByte c) = toLowerByte c"
  by (simp add: toLowerByte_def isUpper_def)

lemma strings_ToLower_idem: "strings_ToLower (strings_ToLower s) = strings_ToLower s"
  by (simp add: strings_ToLower_def toLowerByte_idem)

lemma regexp_ReplaceAllString_set:
  "set (regexp_ReplaceAllString cls s repl) \<subseteq> {c \<in> set s. \<not> cls c} \<union> set repl"
proof (induction cls s repl rule: regexp_ReplaceAllString.induct)
  case (1 cls repl)
  then show ?case by simp
next
  case (2 cls c cs repl)
  show ?case
  proof (cases "cls c")
    case True
    with 2 have "set (regexp_ReplaceAllString cls (dropWhile cls cs) repl)
                   \<subseteq> {c \<in> set (dropWhile cls cs). \<not> cls c} \<union> set repl"
      by simp
    moreover have "set (dropWhile cls cs) \<subseteq> set cs"
      by (rule set_dropWhileD [THEN subsetI]) 
    ultimately show ?thesis using True by auto
  next
    case False
    with 2 show ?thesis by auto
  qed
qed

lemma strings_ReplaceAll_remove_set: "set (strings_ReplaceAll s old []) \<subseteq> set s"
proof (induction s old "[] :: string" rule: strings_ReplaceAll.induct)
  case (1 old)
  then show ?case by simp
next
  case (2 c cs old)
  show ?case
  proof (cases "old \<noteq> [] \<and> prefix old (c # cs)")
    case True
    with 2 have "set (strings_ReplaceAll (drop (length old) (c # cs)) old [])
                   \<subseteq> set (drop (length old) (c # cs))"
      by simp
    moreover have "set (drop (length old) (c # cs)) \<subseteq> set (c # cs)"
      by (rule set_drop_subset)
    ultimately show ?thesis using True by auto
  next
    case False
    with 2 show ?thesis by auto
  qed
qed

lemma urlToFilename_split:
  "\<exists>safe. urlToFilename rawURL = safe @ getFileExtension (strings_ToLower rawURL)
      \<and> (\<forall>c \<in> set safe. isLowerOrDigit c \<or> c = CHR ''_'')"
proof -
  define base where "base = getFileNameOnly (strings_ToLower rawURL)"
  define ext where "ext = getFileExtension (strings_ToLower rawURL)"
  define safe1 where "safe1 = regexp_ReplaceAllString nonAlphanumericRegex base ''_''"
  define safe2 where "safe2 = regexp_ReplaceAllString collapseUnderscoresRegex safe1 ''_''"
  define safe3 where "safe3 = (case strings_CutPrefix safe2 ''_'' of
                     (trimmed, found) \<Rightarrow> if found then trimmed else safe2)"
  define safe4 where "safe4 = removeSubstring safe3 (''_'' @ strings_TrimPrefix ext ''.'')"
  have eq: "urlToFilename rawURL = safe4 @ ext"
    unfolding urlToFilename_def Let_def safe4_def safe3_def safe2_def safe1_def base_def ext_def
    by simp
  have s1: "\<forall>c \<in> set safe1. isLowerOrDigit c \<or> c = CHR ''_''"
    using regexp_ReplaceAllString_set [of nonAlphanumericRegex base "''_''"]
    by (auto simp: safe1_def nonAlphanumericRegex_def)
  have "set safe2 \<subseteq> set safe1 \<union> {CHR ''_''}"
    using regexp_ReplaceAllString_set [of collapseUnderscoresRegex safe1 "''_''"]
    by (auto simp: safe2_def)
  with s1 have s2: "\<forall>c \<in> set safe2. isLowerOrDigit c \<or> c = CHR ''_''"
    by auto
  have "set safe3 \<subseteq> set safe2"
    by (auto simp: safe3_def strings_CutPrefix_def dest: in_set_dropD)
  with s2 have s3: "\<forall>c \<in> set safe3. isLowerOrDigit c \<or> c = CHR ''_''"
    by auto
  have "set safe4 \<subseteq> set safe3"
    by (simp add: safe4_def removeSubstring_def strings_ReplaceAll_remove_set)
  with s3 have "\<forall>c \<in> set safe4. isLowerOrDigit c \<or> c = CHR ''_''"
    by auto
  with eq show ?thesis
    by (auto simp: ext_def)
qed

lemma filepath_Ext_scan_shape:
  "filepath_Ext_scan xs seen = [] \<or>
     (\<exists>mid. filepath_Ext_scan xs seen = CHR ''.'' # mid @ seen
         \<and> CHR ''.'' \<notin> set mid \<and> CHR ''/'' \<notin> set mid)"
proof (induction xs arbitrary: seen)
  case Nil
  then show ?case by simp
next
  case (Cons c xs)
  show ?case
  proof (cases "c = CHR ''/'' \<or> c = CHR ''.''")
    case True
    then show ?thesis by auto
  next
    case False
    from Cons.IH [of "c # seen"] show ?thesis
    proof
      assume "filepath_Ext_scan xs (c # seen) = []"
      with False show ?thesis by simp
    next
      assume "\<exists>mid. filepath_Ext_scan xs (c # seen) = CHR ''.'' # mid @ c # seen
                 \<and> CHR ''.'' \<notin> set mid \<and> CHR ''/'' \<notin> set mid"
      then obtain mid where m: "filepath_Ext_scan xs (c # seen) = CHR ''.'' # mid @ c # seen"
        "CHR ''.'' \<notin> set mid" "CHR ''/'' \<notin> set mid" by blast
      with False have "filepath_Ext_scan (c # xs) seen = CHR ''.'' # (mid @ [c]) @ seen
          \<and> CHR ''.'' \<notin> set (mid @ [c]) \<and> CHR ''/'' \<notin> set (mid @ [c])"
        by auto
      then show ?thesis by blast
    qed
  qed
qed

lemma filepath_Ext_scan_skip:
  "CHR ''.'' \<notin> set xs \<Longrightarrow> CHR ''/'' \<notin> set xs \<Longrightarrow>
     filepath_Ext_scan (xs @ ys) seen = filepath_Ext_scan ys (rev xs @ seen)"
  by (induction xs arbitrary: seen) auto

lemma filepath_Ext_append:
  assumes base: "CHR ''.'' \<notin> set b" "CHR ''/'' \<notin> set b"
  shows "filepath_Ext (b @ filepath_Ext p) = filepath_Ext p"
proof -
  from filepath_Ext_scan_shape [of "rev p" "[]"]
  consider "filepath_Ext p = []"
    | mid where "filepath_Ext p = CHR ''.'' # mid" "CHR ''.'' \<notin> set mid" "CHR ''/'' \<notin> set mid"
    by (auto simp: filepath_Ext_def)
  then show ?thesis
  proof cases
    case 1
    from base have "filepath_Ext_scan (rev b @ []) [] = filepath_Ext_scan [] (rev (rev b) @ [])"
      by (intro filepath_Ext_scan_skip) simp_all
    with 1 show ?thesis by (simp add: filepath_Ext_def)
  next
    case 2
    then have "filepath_Ext_scan (rev mid @ CHR ''.'' # rev b) []
                 = filepath_Ext_scan (CHR ''.'' # rev b) (rev (rev mid) @ [])"
      by (intro filepath_Ext_scan_skip) simp_all
    with 2 show ?thesis by (simp add: filepath_Ext_def)
  qed
qed

lemma not_alnum_dot_slash:
  "\<not> isLowerOrDigit (CHR ''.'')" "\<not> isLowerOrDigit (CHR ''/'')"
  by (simp_all add: isLowerOrDigit_def)

lemma urlToFilename_extension:
  "getFileExtension (urlToFilename rawURL) = getFileExtension (strings_ToLower rawURL)"
proof -
  obtain safe where eq: "urlToFilename rawURL = safe @ getFileExtension (strings_ToLower rawURL)"
    and safe: "\<forall>c \<in> set safe. isLowerOrDigit c \<or> c = CHR ''_''"
    using urlToFilename_split by blast
  from safe have "CHR ''.'' \<notin> set safe" "CHR ''/'' \<notin> set safe"
    using not_alnum_dot_slash by auto
  then show ?thesis
    by (simp add: eq getFileExtension_def filepath_Ext_append)
qed

lemma filepath_Ext_pdf_suffix: "suffix ''.pdf'' p \<Longrightarrow> filepath_Ext p = ''.pdf''"
  by (auto simp: suffix_def filepath_Ext_def)

lemma hexdigit_in: "n < 16 \<Longrightarrow> hexdigit n \<in> set ''0123456789abcdef''"
  unfolding hexdigit_def by (rule nth_mem) simp

lemma hexdigit_inj: "m < 16 \<Longrightarrow> n < 16 \<Longrightarrow> hexdigit m = hexdigit n \<Longrightarrow> m = n"
proof -
  assume "m < 16" "n < 16" "hexdigit m = hexdigit n"
  moreover have "distinct ''0123456789abcdef''" by simp
  moreover have "length ''0123456789abcdef'' = 16" by simp
  ultimately show "m = n"
    unfolding hexdigit_def by (metis nth_eq_iff_index_eq)
qed

lemma hex_EncodeToString_set: "set (hex_EncodeToString bs) \<subseteq> set ''0123456789abcdef''"
proof -
  have "hexdigit ((of_char b :: nat) div 16) \<in> set ''0123456789abcdef''" for b
    by (intro hexdigit_in) (simp add: less_mult_imp_div_less)
  moreover have "hexdigit ((of_char b :: nat) mod 16) \<in> set ''0123456789abcdef''" for b
    by (intro hexdigit_in) simp
  ultimately show ?thesis
    unfolding hex_EncodeToString_def by (induction bs) auto
qed

lemma hex_EncodeToString_inj:
  "hex_EncodeToString bs = hex_EncodeToString cs \<Longrightarrow> bs = cs"
proof (induction bs arbitrary: cs)
  case Nil
  then show ?case by (cases cs) (simp_all add: hex_EncodeToString_def)
next
  case (Cons b bs)
  then obtain c cs' where cs: "cs = c # cs'"
    by (cases cs) (simp_all add: hex_EncodeToString_def)
  from Cons.prems cs
  have hi: "hexdigit ((of_char b :: nat) div 16) = hexdigit ((of_char c :: nat) div 16)"
    and lo: "hexdigit ((of_char b :: nat) mod 16) = hexdigit ((of_char c :: nat) mod 16)"
    and rest: "hex_EncodeToString bs = hex_EncodeToString cs'"
    by (simp_all add: hex_EncodeToString_def)
  from hi have "(of_char b :: nat) div 16 = (of_char c :: nat) div 16"
    by (intro hexdigit_inj) (simp_all add: less_mult_imp_div_less)
  moreover from lo have "(of_char b :: nat) mod 16 = (of_char c :: nat) mod 16"
    by (intro hexdigit_inj) simp_all
  ultimately have "(of_char b :: nat) = of_char c"
    by (metis div_mult_mod_eq)
  then have "b = c" by simp
  with rest Cons.IH cs show ?case by simp
qed

lemma filepath_Ext_no_dot: "CHR ''.'' \<notin> set p \<Longrightarrow> filepath_Ext p = []"
proof -
  assume "CHR ''.'' \<notin> set p"
  then have "filepath_Ext_scan xs seen = []" if "set xs \<subseteq> set p" for xs seen
    using that by (induction xs arbitrary: seen) auto
  then show ?thesis by (simp add: filepath_Ext_def)
qed

lemma urlToFilename_part000_eq:
  "urlToFilename_part000 sha256_Sum256 rawURL
     = hex_EncodeToString (sha256_Sum256 rawURL) @ ''.pdf''"
proof -
  let ?hex = "hex_EncodeToString (sha256_Sum256 rawURL)"
  have digits: "set ?hex \<subseteq> set ''0123456789abcdef''"
    by (rule hex_EncodeToString_set)
  then have "CHR ''.'' \<notin> set ?hex" by auto
  then have ext: "getFileExtension ?hex = []"
    by (simp add: getFileExtension_def filepath_Ext_no_dot)
  have "toLowerByte c = c" if "c \<in> set ''0123456789abcdef''" for c
    using that by (auto simp: toLowerByte_def isUpper_def)
  with digits have "map toLowerByte ?hex = ?hex"
    by (intro map_idI) auto
  moreover have "map toLowerByte ''.pdf'' = ''.pdf''"
    by (simp add: toLowerByte_def isUpper_def)
  ultimately show ?thesis
    by (simp add: urlToFilename_part000_def generateHash_def Let_def ext strings_ToLower_def)
qed

text \<open>
  C9 (Filename Sanitizer), as the code has it. The sanitizer of main.go does not tell
  an input from its lower-cased form, so distinct inputs collide; its output has the
  extension of the lower-cased input, and so ends in \<open>.pdf\<close> exactly when that extension
  is \<open>.pdf\<close>. The sanitizer of part_000 returns the hexadecimal digest of the URL followed
  by \<open>.pdf\<close>, and two URLs get the same name exactly when their digests are equal.
  (That the same input yields the same output holds of every function here.)
\<close>

theorem sanitizer_contract:
  "urlToFilename (strings_ToLower rawURL) = urlToFilename rawURL
   \<and> getFileExtension (urlToFilename rawURL) = getFileExtension (strings_ToLower rawURL)
   \<and> (suffix ''.pdf'' (urlToFilename rawURL)
        \<longleftrightarrow> getFileExtension (strings_ToLower rawURL) = ''.pdf'')
   \<and> urlToFilename_part000 sha256_Sum256 rawURL
        = hex_EncodeToString (sha256_Sum256 rawURL) @ ''.pdf''
   \<and> (urlToFilename_part000 sha256_Sum256 rawURL = urlToFilename_part000 sha256_Sum256 otherURL
        \<longleftrightarrow> sha256_Sum256 rawURL = sha256_Sum256 otherURL)"
proof -
  have lower: "urlToFilename (strings_ToLower rawURL) = urlToFilename rawURL"
    by (simp add: urlToFilename_def strings_ToLower_idem)
  have ext: "getFileExtension (urlToFilename rawURL) = getFileExtension (strings_ToLower rawURL)"
    by (rule urlToFilename_extension)
  have pdf: "suffix ''.pdf'' (urlToFilename rawURL)
               \<longleftrightarrow> getFileExtension (strings_ToLower rawURL) = ''.pdf''"
  proof
    assume "suffix ''.pdf'' (urlToFilename rawURL)"
    then have "getFileExtension (urlToFilename rawURL) = ''.pdf''"
      by (simp add: getFileExtension_def filepath_Ext_pdf_suffix)
    with ext show "getFileExtension (strings_ToLower rawURL) = ''.pdf''" by simp
  next
    assume "getFileExtension (strings_ToLower rawURL) = ''.pdf''"
    with urlToFilename_split [of rawURL] show "suffix ''.pdf'' (urlToFilename rawURL)"
      by (auto simp: suffix_def)
  qed
  have same: "urlToFilename_part000 sha256_Sum256 rawURL
                = urlToFilename_part000 sha256_Sum256 otherURL
              \<longleftrightarrow> sha256_Sum256 rawURL = sha256_Sum256 otherURL"
    by (auto simp: urlToFilename_part000_eq dest: hex_EncodeToString_inj)
  from lower ext pdf same show ?thesis
    by (simp add: urlToFilename_part000_eq)
qed

text \<open>
  C9 as the spec states it fails for main.go: two distinct URLs get the same local name,
  and a name whose extension is \<open>.zip\<close> keeps it.
\<close>

theorem sanitizer_collides_and_keeps_extension:
  "''https://host/A.pdf'' \<noteq> ''https://other/a.pdf''
   \<and> urlToFilename ''https://host/A.pdf'' = urlToFilename ''https://other/a.pdf''
   \<and> urlToFilename ''https://host/doc.zip'' = ''doc.zip''"
  by code_simp

section \<open>Two runs of the pipeline\<close>




































text \<open>
  Why the Ledger must end with a newline: here it holds the one URL without a line end and
  no file is on disk. The first run skips that item, fetches the other one and appends its
  entry to the unfinished line; both end without error. The second run no longer reads the
  first URL from the Ledger and fetches it.
\<close>

lemma unterminated_ledger_line_is_lost:
  "fst (main_from_pages env_pdf ''PDFs'' ''download.txt'' pages_two world_unterminated)
     = [None, None]
   \<and> requests (snd (snd (main_from_pages env_pdf ''PDFs'' ''download.txt'' pages_two
                           world_unterminated)))
     = [''https://host/other.pdf'']
   \<and> requests (snd (snd (main_from_pages env_pdf ''PDFs'' ''download.txt'' pages_two
        (snd (snd (main_from_pages env_pdf ''PDFs'' ''download.txt'' pages_two
                     world_unterminated))))))
     = [''https://host/other.pdf'', ''https://host/file.pdf'']"
  by code_simp

end
